theory Spec2Isabelle
  imports Main "HOL-Library.Sublist" "HOL-Library.AList"
begin

section \<open>The trivia backend (backend/flaskr/__init__.py)\<close>

subsection \<open>Data model\<close>

text \<open>
  Modelled from the spec: the two persisted entities. The classes \<open>Question\<close> and
  \<open>Category\<close> live in \<open>models.py\<close>, which the handlers import; the handlers read
  the attributes \<open>id\<close>, \<open>question\<close>, \<open>category\<close> and \<open>type\<close>, and build a
  question from \<open>question\<close>, \<open>answer\<close>, \<open>difficulty\<close> and \<open>category\<close>.
\<close>

record Question =
  qid :: int
  question :: string
  answer :: string
  category :: int
  difficulty :: int

record Category =
  cid :: int
  ctype :: string

text \<open>
  The storage: the two tables in the order a query returns their rows, the sequence that
  generates question ids, and the escape character (if any) that the engine gives to a
  \<open>LIKE\<close> pattern written without an \<open>ESCAPE\<close> clause.
\<close>

record store =
  question_rows :: "Question list"
  category_rows :: "Category list"
  question_id_seq :: int
  like_escape :: "char option"

text \<open>Values of a JSON object, and a JSON object as Python's \<open>dict\<close> in key order.\<close>

datatype jvalue = JInt int | JStr string

type_synonym jdict = "(string \<times> jvalue) list"

text \<open>
  Modelled from the spec: \<open>Question.format()\<close> of \<open>models.py\<close>, the formatted item of a
  question: a dictionary of its id and its four fields.
\<close>

definition format :: "Question \<Rightarrow> jdict" where
  "format q =
     [(''id'', JInt (qid q)),
      (''question'', JStr (question q)),
      (''answer'', JStr (answer q)),
      (''category'', JInt (category q)),
      (''difficulty'', JInt (difficulty q))]"

subsection \<open>Failures\<close>

text \<open>
  A handler ends in \<open>abort(code)\<close>, in a Python exception nobody catches, or in a
  response. \<open>Abort\<close> carries the status code; \<open>Raised\<close> the exception.
\<close>

datatype exn = IndexError | KeyError | AttributeError | StorageError

datatype failure = Abort nat | Raised exn

text \<open>
  The three registered error handlers (\<open>not_found\<close>, \<open>unprocessable\<close>, \<open>bad_request\<close>):
  the envelope \<open>{success: false, error: code, message: ...}\<close> with its status. No other
  failure has a handler.
\<close>

record envelope =
  success :: bool
  error :: nat
  message :: string

definition errorhandler :: "failure \<Rightarrow> (envelope \<times> nat) option" where
  "errorhandler f =
     (case f of
        Abort c \<Rightarrow>
          (if c = 404 then Some (\<lparr>success = False, error = 404, message = ''resource not found''\<rparr>, 404)
           else if c = 422 then Some (\<lparr>success = False, error = 422, message = ''unprocessable''\<rparr>, 422)
           else if c = 400 then Some (\<lparr>success = False, error = 400, message = ''bad request''\<rparr>, 400)
           else None)
      | Raised e \<Rightarrow> None)"

subsection \<open>Pagination\<close>

text \<open>
  The request as \<open>paginate\<close> sees it: \<open>request.args.get('page', 1, type=int)\<close>. The field is
  the \<open>page\<close> parameter after the conversion to an integer; \<open>None\<close> when the parameter is
  absent or is not an integer, where the default 1 is taken.
\<close>

record request =
  args_page :: "int option"

definition QUESTIONS_PER_PAGE :: int where
  "QUESTIONS_PER_PAGE = 10"

text \<open>
  Python's \<open>xs[start:end]\<close>: a negative bound counts from the end of the list, and every
  bound is clipped to the range from 0 to the length. The slice is empty when the
  clipped start is not before the clipped end; it never raises.
\<close>

definition slice_bound :: "nat \<Rightarrow> int \<Rightarrow> nat" where
  "slice_bound n i = (if i < 0 then nat (max 0 (int n + i)) else min (nat i) n)"

definition py_slice :: "'a list \<Rightarrow> int \<Rightarrow> int \<Rightarrow> 'a list" where
  "py_slice xs start stop =
     (let lo = slice_bound (length xs) start;
          hi = slice_bound (length xs) stop
      in take (hi - lo) (drop lo xs))"

definition paginate :: "request \<Rightarrow> Question list \<Rightarrow> jdict list" where
  "paginate req selection =
     (let page = (case args_page req of None \<Rightarrow> 1 | Some p \<Rightarrow> p);
          start = (page - 1) * QUESTIONS_PER_PAGE;
          end' = start + QUESTIONS_PER_PAGE;
          questions = map format selection;
          current_questions = py_slice questions start end'
      in current_questions)"

subsection \<open>Storage queries\<close>

text \<open>
  Modelled from the spec: the queries of the storage layer (\<open>models.py\<close> and the
  object-relational mapping behind \<open>Question.query\<close> and \<open>Category.query\<close>). A query
  returns the rows in table order; \<open>get\<close> looks a row up by its primary key;
  \<open>filter_by(category=c)\<close> keeps the rows whose category equals \<open>c\<close>.
\<close>

definition Question_query_all :: "store \<Rightarrow> Question list" where
  "Question_query_all db = question_rows db"

definition Category_query_all :: "store \<Rightarrow> Category list" where
  "Category_query_all db = category_rows db"

definition Question_query_get :: "int \<Rightarrow> store \<Rightarrow> Question option" where
  "Question_query_get ident db = find (\<lambda>q. qid q = ident) (question_rows db)"

definition Category_query_get :: "int \<Rightarrow> store \<Rightarrow> Category option" where
  "Category_query_get ident db = find (\<lambda>c. cid c = ident) (category_rows db)"

definition Question_filter_by_category :: "int \<Rightarrow> store \<Rightarrow> Question list" where
  "Question_filter_by_category c db = filter (\<lambda>q. category q = c) (question_rows db)"

text \<open>
  The SQL operator behind \<open>Question.question.ilike(pattern)\<close>. In a \<open>LIKE\<close> pattern a
  percent sign stands for any run of characters, an underscore for any one character,
  and every other character for itself; where the engine has an escape character, the
  character after it stands for itself. The pattern has to cover the whole text. A
  pattern that ends in the escape character matches nothing here; the handler's patterns
  end in a percent sign, so theirs never do. \<open>ILIKE\<close> compares without regard to the case
  of the letters A to Z.
\<close>

fun like :: "char option \<Rightarrow> string \<Rightarrow> string \<Rightarrow> bool" where
  "like esc [] s = (s = [])"
| "like esc (p # ps) s =
     (if Some p = esc then
        (case ps of
           [] \<Rightarrow> False
         | q # qs \<Rightarrow> (case s of [] \<Rightarrow> False | c # cs \<Rightarrow> c = q \<and> like esc qs cs))
      else if p = CHR ''%'' then
        (like esc ps s \<or> (case s of [] \<Rightarrow> False | c # cs \<Rightarrow> like esc (p # ps) cs))
      else if p = CHR ''_'' then
        (case s of [] \<Rightarrow> False | c # cs \<Rightarrow> like esc ps cs)
      else
        (case s of [] \<Rightarrow> False | c # cs \<Rightarrow> c = p \<and> like esc ps cs))"

definition lower_char :: "char \<Rightarrow> char" where
  "lower_char c =
     (let n = (of_char c :: nat) in if 65 \<le> n \<and> n \<le> 90 then char_of (n + 32) else c)"

definition lower :: "string \<Rightarrow> string" where
  "lower s = map lower_char s"

definition ilike :: "char option \<Rightarrow> string \<Rightarrow> string \<Rightarrow> bool" where
  "ilike esc s pattern = like esc (lower pattern) (lower s)"

definition Question_filter_ilike :: "string \<Rightarrow> store \<Rightarrow> Question list" where
  "Question_filter_ilike pattern db =
     filter (\<lambda>q. ilike (like_escape db) (question q) pattern) (question_rows db)"

text \<open>
  Modelled from the spec: \<open>Question.insert()\<close> and \<open>Question.delete()\<close> of \<open>models.py\<close>.
  Inserting gives the row a freshly generated id and adds it to the table; deleting
  removes the row with the question's primary key for good. Both calls are made inside
  \<open>try\<close>: the flag \<open>storage_ok\<close> says whether the storage carries the write out; when it
  does not, the call raises and the table is left as it was.
\<close>

definition Question_insert ::
    "bool \<Rightarrow> string \<Rightarrow> string \<Rightarrow> int \<Rightarrow> int \<Rightarrow> store \<Rightarrow> exn + (Question \<times> store)" where
  "Question_insert storage_ok new_question new_answer new_difficulty new_category db =
     (if storage_ok then
        (let q = \<lparr>qid = question_id_seq db, question = new_question, answer = new_answer,
                  category = new_category, difficulty = new_difficulty\<rparr>
         in Inr (q, db\<lparr>question_rows := question_rows db @ [q],
                       question_id_seq := question_id_seq db + 1\<rparr>))
      else Inl StorageError)"

definition Question_delete :: "bool \<Rightarrow> Question \<Rightarrow> store \<Rightarrow> exn + store" where
  "Question_delete storage_ok q db =
     (if storage_ok then
        Inr (db\<lparr>question_rows := filter (\<lambda>r. qid r \<noteq> qid q) (question_rows db)\<rparr>)
      else Inl StorageError)"

subsection \<open>Requests and responses\<close>

text \<open>
  The JSON body of \<open>POST /questions\<close> as \<open>body.get\<close> reads it: a key that is missing or
  null gives \<open>None\<close>. The JSON body of \<open>POST /quizzes\<close> as the subscripts read it: a
  missing key (\<open>previous_questions\<close>, \<open>quiz_category\<close> or its \<open>id\<close>) is \<open>None\<close> and
  raises \<open>KeyError\<close>. For both handlers, no body at all is \<open>None\<close>; for the quiz handler
  \<open>None\<close> also stands for the empty object, which \<open>not body\<close> treats alike.
\<close>

record post_body =
  b_searchTerm :: "string option"
  b_question :: "string option"
  b_answer :: "string option"
  b_difficulty :: "int option"
  b_category :: "int option"

record quiz_body =
  b_previous_questions :: "int list option"
  b_quiz_category_id :: "int option"

text \<open>
  The successful responses, one constructor for each \<open>jsonify\<close> call; every one of them
  carries \<open>success: true\<close>. The arguments are the other keys in the order of the source:
  \<^item> \<open>CategoriesResponse categories\<close>
  \<^item> \<open>QuestionsResponse questions total_questions categories\<close>
  \<^item> \<open>DeletedResponse deleted\<close>
  \<^item> \<open>SearchResponse questions total_questions\<close>
  \<^item> \<open>CreatedResponse created question_created questions total_questions\<close>
  \<^item> \<open>ByCategoryResponse questions total_questions current_category\<close>
  \<^item> \<open>QuizResponse question\<close>, where \<open>None\<close> is the response without the key.
\<close>

datatype response =
    CategoriesResponse "(int \<times> string) list"
  | QuestionsResponse "jdict list" nat "string list"
  | DeletedResponse int
  | SearchResponse "jdict list" nat
  | CreatedResponse int string "jdict list" nat
  | ByCategoryResponse "jdict list" nat string
  | QuizResponse "jdict option"

subsection \<open>Handlers\<close>

text \<open>\<open>GET /categories\<close>: the dictionary from id to type, 404 when it is empty.\<close>

definition get_categories :: "store \<Rightarrow> failure + response" where
  "get_categories db =
     (let categories = Category_query_all db;
          cat_dict = fold (\<lambda>c d. AList.update (cid c) (ctype c) d) categories []
      in if length cat_dict = 0 then Inl (Abort 404)
         else Inr (CategoriesResponse cat_dict))"

text \<open>\<open>GET /questions\<close>.\<close>

definition get_questions :: "request \<Rightarrow> store \<Rightarrow> failure + response" where
  "get_questions req db =
     (let all_questions = Question_query_all db;
          total = length all_questions;
          selection = paginate req all_questions;
          categories = map ctype (Category_query_all db)
      in if length selection = 0 then Inl (Abort 404)
         else Inr (QuestionsResponse selection total categories))"

text \<open>
  \<open>DELETE /questions/<id>\<close>. The handler returns its result and the storage after it.
\<close>

definition delete_question :: "bool \<Rightarrow> int \<Rightarrow> store \<Rightarrow> (failure + response) \<times> store" where
  "delete_question storage_ok ident db =
     (case Question_query_get ident db of
        None \<Rightarrow> (Inl (Abort 404), db)
      | Some q \<Rightarrow>
          (case Question_delete storage_ok q db of
             Inr db' \<Rightarrow> (Inr (DeletedResponse ident), db')
           | Inl e \<Rightarrow> (Inl (Abort 422), db)))"

text \<open>
  \<open>POST /questions\<close>: a search when \<open>searchTerm\<close> is a non-empty string, else the
  creation of a question. Without a body, \<open>body.get\<close> raises \<open>AttributeError\<close>.
\<close>

definition post_question ::
    "bool \<Rightarrow> request \<Rightarrow> post_body option \<Rightarrow> store \<Rightarrow> (failure + response) \<times> store" where
  "post_question storage_ok req body db =
     (case body of
        None \<Rightarrow> (Inl (Raised AttributeError), db)
      | Some b \<Rightarrow>
          (case b_searchTerm b of
             Some (c # cs) \<Rightarrow>
               (let search_term = c # cs;
                    selection = Question_filter_ilike (''%'' @ search_term @ ''%'') db
                in if length selection = 0 then (Inl (Abort 404), db)
                   else (let results = paginate req selection
                         in (Inr (SearchResponse results (length results)), db)))
           | _ \<Rightarrow>
               (case (b_question b, b_answer b, b_difficulty b, b_category b) of
                  (Some new_question, Some new_answer, Some new_difficulty, Some new_category) \<Rightarrow>
                    (case Question_insert storage_ok new_question new_answer new_difficulty
                            new_category db of
                       Inr (q, db') \<Rightarrow>
                         (let selection = Question_query_all db';
                              current_questions = paginate req selection
                          in (Inr (CreatedResponse (qid q) (question q) current_questions
                                     (length selection)), db'))
                     | Inl e \<Rightarrow> (Inl (Abort 422), db))
                | _ \<Rightarrow> (Inl (Abort 422), db))))"

text \<open>\<open>GET /categories/<id>/questions\<close>.\<close>

definition get_questions_by_category :: "int \<Rightarrow> request \<Rightarrow> store \<Rightarrow> failure + response" where
  "get_questions_by_category ident req db =
     (case Category_query_get ident db of
        None \<Rightarrow> Inl (Abort 400)
      | Some cat \<Rightarrow>
          (let questions = Question_filter_by_category (cid cat) db;
               question_paginated = paginate req questions
           in Inr (ByCategoryResponse question_paginated (length questions) (ctype cat))))"

text \<open>
  \<open>random.choice\<close>: the element at an index below the length, \<open>IndexError\<close> on the empty
  list. The number \<open>rnd\<close> is what the generator draws; every index below the length is
  the outcome of some draw.
\<close>

definition random_choice :: "nat \<Rightarrow> 'a list \<Rightarrow> exn + 'a" where
  "random_choice rnd xs = (if xs = [] then Inl IndexError else Inr (xs ! (rnd mod length xs)))"

text \<open>
  \<open>POST /quizzes\<close>. The loop that collects the unused questions keeps, in order, the
  candidates whose id is not in \<open>previous_questions\<close>.
\<close>

definition post_random_quiz_question ::
    "nat \<Rightarrow> quiz_body option \<Rightarrow> store \<Rightarrow> failure + response" where
  "post_random_quiz_question rnd body db =
     (case body of
        None \<Rightarrow> Inl (Abort 400)
      | Some b \<Rightarrow>
          (case b_previous_questions b of
             None \<Rightarrow> Inl (Raised KeyError)
           | Some previous_questions \<Rightarrow>
               (case b_quiz_category_id b of
                  None \<Rightarrow> Inl (Raised KeyError)
                | Some quiz_category_id \<Rightarrow>
                    (let questions =
                           (if quiz_category_id = 0 then Question_query_all db
                            else Question_filter_by_category quiz_category_id db);
                         total = length questions
                     in if total = length previous_questions then Inr (QuizResponse None)
                        else
                          (let new_list = filter (\<lambda>q. qid q \<notin> set previous_questions) questions
                           in case random_choice rnd new_list of
                                Inl e \<Rightarrow> Inl (Raised e)
                              | Inr chosen \<Rightarrow> Inr (QuizResponse (Some (format chosen))))))))"

subsection \<open>Literal pattern characters and sample data\<close>

text \<open>
  A character that a \<open>LIKE\<close> pattern takes for itself: neither of the two wildcards nor
  the engine's escape character.
\<close>

definition plain_char :: "char option \<Rightarrow> char \<Rightarrow> bool" where
  "plain_char esc c \<longleftrightarrow> c \<noteq> CHR ''%'' \<and> c \<noteq> CHR ''_'' \<and> Some c \<noteq> esc"

text \<open>Questions and stores to run the handlers on.\<close>

definition sample_question :: "int \<Rightarrow> string \<Rightarrow> int \<Rightarrow> Question" where
  "sample_question i t c =
     \<lparr>qid = i, question = t, answer = ''answer'', category = c, difficulty = 1\<rparr>"

definition sample_store :: store where
  "sample_store =
     \<lparr>question_rows = [sample_question 1 ''What Title?'' 1, sample_question 2 ''abc'' 2],
      category_rows = [\<lparr>cid = 1, ctype = ''Science''\<rparr>, \<lparr>cid = 2, ctype = ''Art''\<rparr>],
      question_id_seq = 3,
      like_escape = None\<rparr>"

definition twenty_two_rows :: "Question list" where
  "twenty_two_rows =
     map (\<lambda>i. sample_question i ''q'' 1)
       [1, 2, 3, 4, 5, 6, 7, 8, 9, 10, 11, 12, 13, 14, 15, 16, 17, 18, 19, 20, 21, 22]"

definition twelve_store :: store where
  "twelve_store =
     \<lparr>question_rows = map (\<lambda>i. sample_question i ''q'' 1) [1, 2, 3, 4, 5, 6, 7, 8, 9, 10, 11, 12],
      category_rows = [\<lparr>cid = 1, ctype = ''Science''\<rparr>],
      question_id_seq = 13,
      like_escape = None\<rparr>"

section \<open>Properties\<close>

subsection \<open>Slicing\<close>

lemma py_slice_nonneg:
  assumes "0 \<le> start" and "start \<le> stop"
  shows "py_slice xs start stop = take (nat (stop - start)) (drop (nat start) xs)"
proof (cases "nat start \<le> length xs")
  case True
  show ?thesis
  proof (cases "nat stop \<le> length xs")
    case True
    with assms \<open>nat start \<le> length xs\<close> show ?thesis
      by (simp add: py_slice_def slice_bound_def Let_def min_def nat_diff_distrib)
  next
    case False
    with assms \<open>nat start \<le> length xs\<close> show ?thesis
      by (simp add: py_slice_def slice_bound_def Let_def min_def)
  qed
next
  case False
  with assms show ?thesis
    by (simp add: py_slice_def slice_bound_def Let_def min_def)
qed

lemma paginate_page:
  "paginate \<lparr>args_page = Some p\<rparr> sel = py_slice (map format sel) ((p - 1) * 10) ((p - 1) * 10 + 10)"
  by (simp add: paginate_def QUESTIONS_PER_PAGE_def Let_def)

lemma paginate_default:
  "paginate \<lparr>args_page = None\<rparr> sel = paginate \<lparr>args_page = Some 1\<rparr> sel"
  by (simp add: paginate_def)

lemma paginate_positive:
  assumes "1 \<le> p"
  shows "paginate \<lparr>args_page = Some p\<rparr> sel = take 10 (drop (nat (10 * (p - 1))) (map format sel))"
proof -
  have "py_slice (map format sel) ((p - 1) * 10) ((p - 1) * 10 + 10)
        = take (nat ((p - 1) * 10 + 10 - (p - 1) * 10)) (drop (nat ((p - 1) * 10)) (map format sel))"
    using assms by (intro py_slice_nonneg) simp_all
  then show ?thesis
    by (simp add: paginate_page mult.commute)
qed

text \<open>
  C1. For a list of questions of length L and a page number p of at least 1, the
  pagination helper returns the formatted items from offset 10*(p-1) on, as many as
  min(10, max(0, L - 10*(p-1))) of them: a contiguous sub-range of the formatted list.
  The helper has no failing branch: it returns the empty list when the offset is at or
  beyond L.
\<close>

theorem paginate_subrange:
  assumes "1 \<le> p"
  shows "paginate \<lparr>args_page = Some p\<rparr> sel
           = take (nat (min 10 (max 0 (int (length sel) - 10 * (p - 1)))))
               (drop (nat (10 * (p - 1))) (map format sel))
       \<and> length (paginate \<lparr>args_page = Some p\<rparr> sel)
           = nat (min 10 (max 0 (int (length sel) - 10 * (p - 1))))
       \<and> (int (length sel) \<le> 10 * (p - 1) \<longrightarrow> paginate \<lparr>args_page = Some p\<rparr> sel = [])"
proof -
  let ?xs = "drop (nat (10 * (p - 1))) (map format sel)"
  have len: "length ?xs = nat (max 0 (int (length sel) - 10 * (p - 1)))"
    using assms by simp
  have "take 10 ?xs = take (min 10 (length ?xs)) ?xs"
    by (simp add: min_def)
  also have "min 10 (length ?xs) = nat (min 10 (max 0 (int (length sel) - 10 * (p - 1))))"
    unfolding len by simp
  finally have eq: "take 10 ?xs
      = take (nat (min 10 (max 0 (int (length sel) - 10 * (p - 1))))) ?xs" .
  have l: "length (take 10 ?xs) = nat (min 10 (max 0 (int (length sel) - 10 * (p - 1))))"
    unfolding length_take len by simp
  have e: "int (length sel) \<le> 10 * (p - 1) \<longrightarrow> take 10 ?xs = []"
    by simp
  show ?thesis
    unfolding paginate_positive [OF assms] using eq l e by simp
qed

theorem paginate_subrange_witness:
  "paginate \<lparr>args_page = Some 2\<rparr> (question_rows twelve_store)
     = [format (sample_question 11 ''q'' 1), format (sample_question 12 ''q'' 1)]
   \<and> length (paginate \<lparr>args_page = Some 2\<rparr> (question_rows twelve_store)) = 2
   \<and> paginate \<lparr>args_page = Some 3\<rparr> (question_rows twelve_store) = []"
  using paginate_subrange [of 2 "question_rows twelve_store"]
        paginate_subrange [of 3 "question_rows twelve_store"]
  by (simp add: twelve_store_def)

subsection \<open>Listing the questions\<close>

text \<open>
  C8. For every store and every page parameter, the list-questions operation fails with
  404 exactly when the paginated slice is empty, a page beyond the range included; on
  success it returns the slice, the categories' types, and as total_questions the number
  of stored questions before pagination. With 12 stored questions, page 1 returns 10
  items with total_questions 12, and page 2 the remaining 2.
\<close>

theorem get_questions_result:
  "(get_questions req db = Inl (Abort 404) \<longleftrightarrow> paginate req (question_rows db) = [])
 \<and> (paginate req (question_rows db) \<noteq> [] \<longrightarrow>
      get_questions req db
        = Inr (QuestionsResponse (paginate req (question_rows db)) (length (question_rows db))
                 (map ctype (category_rows db))))
 \<and> (1 \<le> p \<and> int (length (question_rows db)) \<le> 10 * (p - 1) \<longrightarrow>
      get_questions \<lparr>args_page = Some p\<rparr> db = Inl (Abort 404))
 \<and> (length (question_rows db) = 12 \<longrightarrow>
      get_questions \<lparr>args_page = Some 1\<rparr> db
        = Inr (QuestionsResponse (take 10 (map format (question_rows db))) 12
                 (map ctype (category_rows db)))
    \<and> length (take 10 (map format (question_rows db))) = 10
    \<and> get_questions \<lparr>args_page = Some 2\<rparr> db
        = Inr (QuestionsResponse (drop 10 (map format (question_rows db))) 12
                 (map ctype (category_rows db)))
    \<and> length (drop 10 (map format (question_rows db))) = 2)"
proof (intro conjI impI)
  show "get_questions req db = Inl (Abort 404) \<longleftrightarrow> paginate req (question_rows db) = []"
    by (simp add: get_questions_def Question_query_all_def Let_def)
  show "get_questions req db
        = Inr (QuestionsResponse (paginate req (question_rows db)) (length (question_rows db))
                 (map ctype (category_rows db)))"
    if "paginate req (question_rows db) \<noteq> []"
    using that by (simp add: get_questions_def Question_query_all_def Category_query_all_def Let_def)
  show "get_questions \<lparr>args_page = Some p\<rparr> db = Inl (Abort 404)"
    if "1 \<le> p \<and> int (length (question_rows db)) \<le> 10 * (p - 1)"
  proof -
    from that have "length (question_rows db) \<le> nat (10 * (p - 1))" by linarith
    with that show ?thesis
      by (simp add: get_questions_def Question_query_all_def Let_def paginate_positive)
  qed
next
  assume len: "length (question_rows db) = 12"
  have p1: "paginate \<lparr>args_page = Some 1\<rparr> (question_rows db) = take 10 (map format (question_rows db))"
    using paginate_positive [of 1 "question_rows db"] by simp
  have p2: "paginate \<lparr>args_page = Some 2\<rparr> (question_rows db) = drop 10 (map format (question_rows db))"
    using paginate_positive [of 2 "question_rows db"] len by simp
  show "get_questions \<lparr>args_page = Some 1\<rparr> db
        = Inr (QuestionsResponse (take 10 (map format (question_rows db))) 12
                 (map ctype (category_rows db)))"
    using len by (auto simp: get_questions_def Question_query_all_def Category_query_all_def Let_def p1)
  show "get_questions \<lparr>args_page = Some 2\<rparr> db
        = Inr (QuestionsResponse (drop 10 (map format (question_rows db))) 12
                 (map ctype (category_rows db)))"
    using len by (auto simp: get_questions_def Question_query_all_def Category_query_all_def Let_def p2)
  show "length (take 10 (map format (question_rows db))) = 10" using len by simp
  show "length (drop 10 (map format (question_rows db))) = 2" using len by simp
qed

theorem get_questions_result_witness:
  "get_questions \<lparr>args_page = Some 1\<rparr> twelve_store
     = Inr (QuestionsResponse (take 10 (map format (question_rows twelve_store))) 12 [''Science''])
   \<and> get_questions \<lparr>args_page = Some 2\<rparr> twelve_store
     = Inr (QuestionsResponse
              [format (sample_question 11 ''q'' 1), format (sample_question 12 ''q'' 1)] 12 [''Science''])
   \<and> get_questions \<lparr>args_page = Some 3\<rparr> twelve_store = Inl (Abort 404)"
  using get_questions_result [of "\<lparr>args_page = Some 3\<rparr>" twelve_store 3]
  by (simp add: twelve_store_def)

subsection \<open>Pages that are not positive\<close>

lemma paginate_zero: "paginate \<lparr>args_page = Some 0\<rparr> sel = []"
  by (simp add: paginate_page py_slice_def slice_bound_def)

lemma paginate_negative:
  assumes "p < 0" and "10 * (1 - p) \<le> int (length sel)"
  shows "paginate \<lparr>args_page = Some p\<rparr> sel
           = take 10 (drop (nat (int (length sel) + (p - 1) * 10)) (map format sel))"
proof -
  have lo: "slice_bound (length (map format sel)) ((p - 1) * 10) = nat (int (length sel) + (p - 1) * 10)"
    using assms by (simp add: slice_bound_def)
  have hi: "slice_bound (length (map format sel)) ((p - 1) * 10 + 10) = nat (int (length sel) + (p - 1) * 10) + 10"
    using assms by (simp add: slice_bound_def)
  show ?thesis
    unfolding paginate_page py_slice_def Let_def lo hi by simp
qed

text \<open>
  C9. For page 0 the pagination helper returns the empty slice, so \<open>GET /questions?page=0\<close>
  gives 404 whatever the store holds. For a negative page p and a list of length L with
  L \<ge> 10*(1-p), the bounds (p-1)*10 and p*10 count from the end of the list: the helper
  returns the ten items from position L + (p-1)*10 up to position L + p*10. The length
  formula min(10, max(0, L - 10*(p-1))) of the positive pages is not that of the pages
  p \<le> 0: it is wrong for page 0 on every list, and for every p \<le> 0 on the empty list.
\<close>

theorem paginate_nonpositive_page:
  "paginate \<lparr>args_page = Some 0\<rparr> sel = []
 \<and> get_questions \<lparr>args_page = Some 0\<rparr> db = Inl (Abort 404)
 \<and> (p < 0 \<and> 10 * (1 - p) \<le> int (length sel) \<longrightarrow>
      paginate \<lparr>args_page = Some p\<rparr> sel
        = take 10 (drop (nat (int (length sel) + (p - 1) * 10)) (map format sel))
    \<and> nat (int (length sel) + (p - 1) * 10) + 10 = nat (int (length sel) + p * 10)
    \<and> nat (int (length sel) + p * 10) \<le> length sel)
 \<and> (p \<le> 0 \<longrightarrow>
      length (paginate \<lparr>args_page = Some p\<rparr> [])
        \<noteq> nat (min 10 (max 0 (int (length ([] :: Question list)) - 10 * (p - 1)))))
 \<and> length (paginate \<lparr>args_page = Some 0\<rparr> sel)
        \<noteq> nat (min 10 (max 0 (int (length sel) - 10 * (0 - 1))))"
proof (intro conjI impI)
  show "paginate \<lparr>args_page = Some 0\<rparr> sel = []" by (rule paginate_zero)
  show "get_questions \<lparr>args_page = Some 0\<rparr> db = Inl (Abort 404)"
    by (simp add: get_questions_def Let_def paginate_zero)
  show "length (paginate \<lparr>args_page = Some 0\<rparr> sel)
        \<noteq> nat (min 10 (max 0 (int (length sel) - 10 * (0 - 1))))"
    by (simp add: paginate_zero)
  show "length (paginate \<lparr>args_page = Some p\<rparr> [])
        \<noteq> nat (min 10 (max 0 (int (length ([] :: Question list)) - 10 * (p - 1))))" if "p \<le> 0"
    using that by (simp add: paginate_page py_slice_def)
next
  assume a: "p < 0 \<and> 10 * (1 - p) \<le> int (length sel)"
  then show "paginate \<lparr>args_page = Some p\<rparr> sel
        = take 10 (drop (nat (int (length sel) + (p - 1) * 10)) (map format sel))"
    by (simp add: paginate_negative)
  from a have nn: "0 \<le> int (length sel) + (p - 1) * 10" by simp
  have "int (length sel) + p * 10 = (int (length sel) + (p - 1) * 10) + 10"
    by (simp add: algebra_simps)
  with nn show "nat (int (length sel) + (p - 1) * 10) + 10 = nat (int (length sel) + p * 10)"
    by (simp add: nat_add_distrib)
  from a have "int (length sel) + p * 10 \<le> int (length sel)" by simp
  then show "nat (int (length sel) + p * 10) \<le> length sel"
    by linarith
qed

theorem paginate_nonpositive_page_witness:
  "get_questions \<lparr>args_page = Some 0\<rparr> twelve_store = Inl (Abort 404)
   \<and> paginate \<lparr>args_page = Some (- 1)\<rparr> twenty_two_rows
       = take 10 (drop 2 (map format twenty_two_rows))
   \<and> length (paginate \<lparr>args_page = Some (- 1)\<rparr> []) \<noteq> 10"
  using paginate_nonpositive_page [of twenty_two_rows twelve_store "- 1"]
  by (simp add: twenty_two_rows_def)

text \<open>
  On a list too short for the negative bounds the start is clipped to 0: page -1 of twelve
  questions is the first two, where the formula of the positive pages says ten.
\<close>

lemma negative_page_short_list:
  "paginate \<lparr>args_page = Some (- 1)\<rparr> (question_rows twelve_store)
     = [format (sample_question 1 ''q'' 1), format (sample_question 2 ''q'' 1)]"
  by (simp add: paginate_page py_slice_def slice_bound_def twelve_store_def)

text \<open>
  A negative page has min(10, max(0, L + 10*p)) items. That is the ten of the positive
  pages' formula on the lists with L \<ge> 10*(1-p), where the items come from the end of
  the list, and fewer on every shorter list.
\<close>

lemma paginate_negative_length:
  assumes "p < 0"
  shows "length (paginate \<lparr>args_page = Some p\<rparr> sel)
           = nat (min 10 (max 0 (int (length sel) + 10 * p)))"
proof -
  have lo: "slice_bound (length (map format sel)) ((p - 1) * 10)
              = nat (max 0 (int (length sel) + (p - 1) * 10))"
    using assms by (simp add: slice_bound_def)
  have hi: "slice_bound (length (map format sel)) ((p - 1) * 10 + 10)
              = nat (max 0 (int (length sel) + p * 10))"
    using assms by (simp add: slice_bound_def algebra_simps)
  have "length (paginate \<lparr>args_page = Some p\<rparr> sel)
          = min (length sel - nat (max 0 (int (length sel) + (p - 1) * 10)))
                (nat (max 0 (int (length sel) + p * 10)) - nat (max 0 (int (length sel) + (p - 1) * 10)))"
    unfolding paginate_page py_slice_def Let_def lo hi by simp
  also have "\<dots> = nat (min 10 (max 0 (int (length sel) + 10 * p)))"
  proof -
    define k where "k = int (length sel) + 10 * p"
    have k: "int (length sel) + p * 10 = k" "int (length sel) + (p - 1) * 10 = k - 10"
      by (simp_all add: k_def algebra_simps)
    have le: "k \<le> int (length sel)" using assms by (simp add: k_def)
    consider "k \<le> 0" | "0 < k" "k < 10" | "10 \<le> k" by linarith
    then have "min (length sel - nat (max 0 (k - 10))) (nat (max 0 k) - nat (max 0 (k - 10)))
                 = nat (min 10 (max 0 k))"
    proof cases
      case 1
      then show ?thesis by simp
    next
      case 2
      with le show ?thesis by (simp add: max_def min_def) linarith
    next
      case 3
      with le show ?thesis by (simp add: max_def min_def) linarith
    qed
    then show ?thesis
      unfolding k by (simp add: k_def)
  qed
  finally show ?thesis .
qed

subsection \<open>Deleting a question\<close>

lemma delete_question_absent:
  assumes "\<forall>q \<in> set (question_rows db). qid q \<noteq> ident"
  shows "delete_question storage_ok ident db = (Inl (Abort 404), db)"
proof -
  from assms have "Question_query_get ident db = None"
    by (simp add: Question_query_get_def find_None_iff)
  then show ?thesis
    by (simp add: delete_question_def)
qed

lemma delete_question_present:
  assumes "\<exists>q \<in> set (question_rows db). qid q = ident"
  shows "delete_question storage_ok ident db
           = (if storage_ok
              then (Inr (DeletedResponse ident),
                    db\<lparr>question_rows := filter (\<lambda>q. qid q \<noteq> ident) (question_rows db)\<rparr>)
              else (Inl (Abort 422), db))"
proof -
  from assms obtain q where q: "Question_query_get ident db = Some q"
    by (cases "Question_query_get ident db") (auto simp: Question_query_get_def find_None_iff)
  then have "qid q = ident"
    by (auto simp: Question_query_get_def dest: find_Some_iff [THEN iffD1])
  with q show ?thesis
    by (simp add: delete_question_def Question_delete_def)
qed

text \<open>Where the storage raises on the deletion, the handler's \<open>except\<close> answers 422.\<close>

lemma delete_question_storage_failure:
  assumes "\<exists>q \<in> set (question_rows db). qid q = ident"
  shows "delete_question False ident db = (Inl (Abort 422), db)"
  using delete_question_present [OF assms, of False] by simp

text \<open>
  C5, amended. For every id and whatever the storage does, the delete-question operation
  returns 404 when no question with that id exists. When one exists, the operation
  removes it and returns \<open>{success: true, deleted: id}\<close> if the storage carries the
  deletion out, and returns 422 with the question still stored if the deletion raises.
  Every successful deletion has removed the question, so that deleting the same id again
  returns 404: an existing id deleted twice gives 200 then 404.
\<close>

theorem delete_question_result:
  "((\<forall>q \<in> set (question_rows db). qid q \<noteq> ident) \<longrightarrow>
       delete_question storage_ok ident db = (Inl (Abort 404), db))
 \<and> ((\<exists>q \<in> set (question_rows db). qid q = ident) \<longrightarrow>
       delete_question storage_ok ident db
         = (if storage_ok
            then (Inr (DeletedResponse ident),
                  db\<lparr>question_rows := filter (\<lambda>q. qid q \<noteq> ident) (question_rows db)\<rparr>)
            else (Inl (Abort 422), db)))
 \<and> (\<forall>r db'. delete_question storage_ok ident db = (Inr r, db') \<longrightarrow>
       r = DeletedResponse ident
     \<and> (\<exists>q \<in> set (question_rows db). qid q = ident)
     \<and> question_rows db' = filter (\<lambda>q. qid q \<noteq> ident) (question_rows db)
     \<and> (\<forall>q \<in> set (question_rows db'). qid q \<noteq> ident)
     \<and> (\<forall>storage_ok'. delete_question storage_ok' ident db' = (Inl (Abort 404), db')))"
proof (intro conjI impI allI)
  show "delete_question storage_ok ident db = (Inl (Abort 404), db)"
    if "\<forall>q \<in> set (question_rows db). qid q \<noteq> ident"
    using that by (rule delete_question_absent)
  show "delete_question storage_ok ident db
         = (if storage_ok
            then (Inr (DeletedResponse ident),
                  db\<lparr>question_rows := filter (\<lambda>q. qid q \<noteq> ident) (question_rows db)\<rparr>)
            else (Inl (Abort 422), db))"
    if "\<exists>q \<in> set (question_rows db). qid q = ident"
    using that by (rule delete_question_present)
next
  fix r db'
  assume ok: "delete_question storage_ok ident db = (Inr r, db')"
  show present: "\<exists>q \<in> set (question_rows db). qid q = ident"
  proof (rule ccontr)
    assume "\<not> (\<exists>q \<in> set (question_rows db). qid q = ident)"
    then have "\<forall>q \<in> set (question_rows db). qid q \<noteq> ident" by simp
    from delete_question_absent [OF this, of storage_ok] ok show False by simp
  qed
  from delete_question_present [OF present, of storage_ok] ok
  have r: "r = DeletedResponse ident"
    and db': "db' = db\<lparr>question_rows := filter (\<lambda>q. qid q \<noteq> ident) (question_rows db)\<rparr>"
    by (simp_all split: if_splits)
  show "r = DeletedResponse ident" by (rule r)
  show rows: "question_rows db' = filter (\<lambda>q. qid q \<noteq> ident) (question_rows db)"
    using db' by simp
  show gone: "\<forall>q \<in> set (question_rows db'). qid q \<noteq> ident"
    using rows by simp
  show "delete_question storage_ok' ident db' = (Inl (Abort 404), db')" for storage_ok'
    using gone by (rule delete_question_absent)
qed

theorem delete_question_result_witness:
  "delete_question True 1 sample_store
     = (Inr (DeletedResponse 1), sample_store\<lparr>question_rows := [sample_question 2 ''abc'' 2]\<rparr>)
   \<and> delete_question True 1 (sample_store\<lparr>question_rows := [sample_question 2 ''abc'' 2]\<rparr>)
     = (Inl (Abort 404), sample_store\<lparr>question_rows := [sample_question 2 ''abc'' 2]\<rparr>)
   \<and> delete_question False 2 sample_store = (Inl (Abort 422), sample_store)
   \<and> delete_question True 7 sample_store = (Inl (Abort 404), sample_store)"
proof -
  let ?db' = "sample_store\<lparr>question_rows := [sample_question 2 ''abc'' 2]\<rparr>"
  have absent: "\<forall>q \<in> set (question_rows sample_store). qid q \<noteq> 7"
    by (simp add: sample_store_def sample_question_def)
  have present1: "\<exists>q \<in> set (question_rows sample_store). qid q = 1"
    by (simp add: sample_store_def sample_question_def)
  have present2: "\<exists>q \<in> set (question_rows sample_store). qid q = 2"
    by (simp add: sample_store_def sample_question_def)
  from delete_question_result [of sample_store 7 True] absent
  have 1: "delete_question True 7 sample_store = (Inl (Abort 404), sample_store)" by blast
  from delete_question_result [of sample_store 2 False] present2
  have 2: "delete_question False 2 sample_store = (Inl (Abort 422), sample_store)" by simp
  have rows: "filter (\<lambda>q. qid q \<noteq> 1) (question_rows sample_store) = [sample_question 2 ''abc'' 2]"
    by (simp add: sample_store_def sample_question_def)
  from delete_question_result [of sample_store 1 True, THEN conjunct2, THEN conjunct1,
      rule_format, OF present1]
  have 3: "delete_question True 1 sample_store = (Inr (DeletedResponse 1), ?db')"
    by (simp only: rows if_True)
  from delete_question_result [of sample_store 1 True, THEN conjunct2, THEN conjunct2,
      rule_format, OF 3]
  have "\<forall>storage_ok'. delete_question storage_ok' 1 ?db' = (Inl (Abort 404), ?db')"
    by (elim conjE)
  then have 4: "delete_question True 1 ?db' = (Inl (Abort 404), ?db')" ..
  from 1 2 3 4 show ?thesis by (intro conjI)
qed

text \<open>
  Without the condition on the storage the success after an existing id does not hold:
  question 1 is stored, the deletion raises, and the operation answers 422 and leaves the
  question where it was.
\<close>

theorem delete_question_counterexample:
  "sample_question 1 ''What Title?'' 1 \<in> set (question_rows sample_store)
 \<and> qid (sample_question 1 ''What Title?'' 1) = 1
 \<and> delete_question False 1 sample_store = (Inl (Abort 422), sample_store)
 \<and> delete_question False 1 sample_store
      \<noteq> (Inr (DeletedResponse 1),
          sample_store\<lparr>question_rows := filter (\<lambda>q. qid q \<noteq> 1) (question_rows sample_store)\<rparr>)"
proof -
  have "\<exists>q \<in> set (question_rows sample_store). qid q = 1"
    by (simp add: sample_store_def sample_question_def)
  from delete_question_storage_failure [OF this]
  have "delete_question False 1 sample_store = (Inl (Abort 422), sample_store)" .
  then show ?thesis
    by (simp add: sample_store_def sample_question_def)
qed

subsection \<open>Patterns without wildcards\<close>

lemma lower_char_percent: "lower_char (CHR ''%'') = CHR ''%''"
  by (simp add: lower_char_def)

lemma lower_wrap: "lower (''%'' @ t @ ''%'') = CHR ''%'' # lower t @ ''%''"
  by (simp add: lower_def lower_char_percent)

lemma like_plain_char:
  "plain_char esc p \<Longrightarrow> like esc (p # ps) s = (\<exists>cs. s = p # cs \<and> like esc ps cs)"
  by (cases s) (auto simp: plain_char_def)

lemma like_percent:
  "esc \<noteq> Some (CHR ''%'') \<Longrightarrow>
     like esc (CHR ''%'' # ps) s = (like esc ps s \<or> (\<exists>c cs. s = c # cs \<and> like esc (CHR ''%'' # ps) cs))"
  by (cases s) auto

lemma like_plain_prefix:
  "\<forall>c \<in> set t. plain_char esc c \<Longrightarrow> like esc (t @ ps) s = (\<exists>r. s = t @ r \<and> like esc ps r)"
proof (induction t arbitrary: s)
  case Nil
  then show ?case by simp
next
  case (Cons a t)
  then have a: "plain_char esc a" and t: "\<forall>c \<in> set t. plain_char esc c" by simp_all
  have "like esc ((a # t) @ ps) s = (\<exists>cs. s = a # cs \<and> like esc (t @ ps) cs)"
    using like_plain_char [OF a] by simp
  also have "\<dots> = (\<exists>cs. s = a # cs \<and> (\<exists>r. cs = t @ r \<and> like esc ps r))"
    using Cons.IH [OF t] by simp
  also have "\<dots> = (\<exists>r. s = (a # t) @ r \<and> like esc ps r)"
    by auto
  finally show ?case .
qed

lemma like_percent_prefix:
  assumes "esc \<noteq> Some (CHR ''%'')"
  shows "like esc (CHR ''%'' # ps) s = (\<exists>pre r. s = pre @ r \<and> like esc ps r)"
proof (induction s)
  case Nil
  show ?case using like_percent [OF assms, of ps "[]"] by simp
next
  case (Cons c cs)
  have "like esc (CHR ''%'' # ps) (c # cs)
          = (like esc ps (c # cs) \<or> like esc (CHR ''%'' # ps) cs)"
    using like_percent [OF assms, of ps "c # cs"] by simp
  also have "\<dots> = (like esc ps (c # cs) \<or> (\<exists>pre r. cs = pre @ r \<and> like esc ps r))"
    using Cons.IH by simp
  also have "\<dots> = (\<exists>pre r. c # cs = pre @ r \<and> like esc ps r)"
    by (auto simp: Cons_eq_append_conv)
  finally show ?case .
qed

lemma like_percent_only:
  assumes "esc \<noteq> Some (CHR ''%'')"
  shows "like esc ''%'' s"
  using like_percent_prefix [OF assms, of "[]" s] by simp

text \<open>
  A term of literal characters between two percent signs matches the texts that contain
  the term, letters compared without case.
\<close>

lemma ilike_plain_term:
  assumes "esc \<noteq> Some (CHR ''%'')" and "\<forall>c \<in> set (lower t). plain_char esc c"
  shows "ilike esc s (''%'' @ t @ ''%'') \<longleftrightarrow> sublist (lower t) (lower s)"
proof -
  have "ilike esc s (''%'' @ t @ ''%'') = like esc (CHR ''%'' # lower t @ ''%'') (lower s)"
    by (simp only: ilike_def lower_wrap)
  also have "\<dots> = (\<exists>pre r. lower s = pre @ r \<and> like esc (lower t @ ''%'') r)"
    by (rule like_percent_prefix [OF assms(1)])
  also have "\<dots> = (\<exists>pre r. lower s = pre @ r \<and> (\<exists>r'. r = lower t @ r' \<and> like esc ''%'' r'))"
    by (simp only: like_plain_prefix [OF assms(2)])
  also have "\<dots> = (\<exists>pre r'. lower s = pre @ lower t @ r')"
    by (simp only: like_percent_only [OF assms(1)]) blast
  also have "\<dots> = sublist (lower t) (lower s)"
    by (simp add: sublist_def)
  finally show ?thesis .
qed

subsection \<open>Searching the questions\<close>

text \<open>
  A search with a non-empty term aborts with 404 when the query selects nothing;
  otherwise it succeeds with the requested page of the selection, and total_questions is
  the length of that page, not the number of selected questions.
\<close>

lemma search_result:
  assumes "b_searchTerm b = Some t" and "t \<noteq> []"
  shows "post_question storage_ok req (Some b) db
           = (if Question_filter_ilike (''%'' @ t @ ''%'') db = [] then (Inl (Abort 404), db)
              else (Inr (SearchResponse
                           (paginate req (Question_filter_ilike (''%'' @ t @ ''%'') db))
                           (length (paginate req (Question_filter_ilike (''%'' @ t @ ''%'') db)))),
                    db))"
proof -
  from assms obtain c cs where t: "t = c # cs" by (cases t) auto
  with assms show ?thesis
    by (simp add: post_question_def Let_def)
qed

text \<open>
  For a term of literal characters the query selects the questions whose text contains
  the term, letters compared without case.
\<close>

lemma search_plain_term:
  assumes "b_searchTerm b = Some t" and "t \<noteq> []"
      and "like_escape db \<noteq> Some (CHR ''%'')"
      and "\<forall>c \<in> set (lower t). plain_char (like_escape db) c"
  shows "((\<forall>q \<in> set (question_rows db). \<not> sublist (lower t) (lower (question q))) \<longrightarrow>
            post_question storage_ok req (Some b) db = (Inl (Abort 404), db))
       \<and> ((\<exists>q \<in> set (question_rows db). sublist (lower t) (lower (question q))) \<longrightarrow>
            (\<exists>results. post_question storage_ok req (Some b) db
                          = (Inr (SearchResponse results (length results)), db)
               \<and> results = paginate req
                   (filter (\<lambda>q. sublist (lower t) (lower (question q))) (question_rows db))))"
proof -
  have sel: "Question_filter_ilike (''%'' @ t @ ''%'') db
               = filter (\<lambda>q. sublist (lower t) (lower (question q))) (question_rows db)"
    unfolding Question_filter_ilike_def
    by (simp only: ilike_plain_term [OF assms(3,4)])
  show ?thesis
    unfolding search_result [OF assms(1,2)] sel
    by (auto simp: filter_empty_conv)
qed

text \<open>
  C4. For a search with a non-empty searchTerm, the operation should fail with 404 when
  no question text contains the term case-insensitively, and otherwise succeed with
  total_questions equal to the length of the returned page. The handler puts the term
  into the pattern as it is, so a percent sign or an underscore in it is a wildcard: for
  the term \<open>%\<close> no question of the sample store contains the term, and the search
  answers with every question instead of 404, whether or not the engine has an escape
  character.
\<close>

theorem search_wildcard_term:
  "question_rows sample_store = [sample_question 1 ''What Title?'' 1, sample_question 2 ''abc'' 2]
 \<and> \<not> sublist (lower ''%'') (lower ''What Title?'')
 \<and> \<not> sublist (lower ''%'') (lower ''abc'')
 \<and> post_question True \<lparr>args_page = None\<rparr>
      (Some \<lparr>b_searchTerm = Some ''%'', b_question = None, b_answer = None,
             b_difficulty = None, b_category = None\<rparr>) sample_store
     = (Inr (SearchResponse
               [format (sample_question 1 ''What Title?'' 1), format (sample_question 2 ''abc'' 2)] 2),
        sample_store)
 \<and> post_question True \<lparr>args_page = None\<rparr>
      (Some \<lparr>b_searchTerm = Some ''%'', b_question = None, b_answer = None,
             b_difficulty = None, b_category = None\<rparr>) (sample_store\<lparr>like_escape := Some (CHR 0x5C)\<rparr>)
     = (Inr (SearchResponse
               [format (sample_question 1 ''What Title?'' 1), format (sample_question 2 ''abc'' 2)] 2),
        sample_store\<lparr>like_escape := Some (CHR 0x5C)\<rparr>)"
proof (intro conjI)
  show "question_rows sample_store = [sample_question 1 ''What Title?'' 1, sample_question 2 ''abc'' 2]"
    by (simp add: sample_store_def)
  show "\<not> sublist (lower ''%'') (lower ''What Title?'')"
    by code_simp
  show "\<not> sublist (lower ''%'') (lower ''abc'')"
    by code_simp
  have all: "Question_filter_ilike ''%%%'' db = question_rows db"
    if "like_escape db \<noteq> Some (CHR ''%'')" for db
  proof -
    have "like (like_escape db) (lower ''%%%'') s" for s
      using that like_percent_prefix [of "like_escape db" "''%%''" s]
            like_percent_prefix [of "like_escape db" "''%''"] like_percent_only [of "like_escape db"]
      by (simp add: lower_def lower_char_percent)
    then show ?thesis
      by (simp add: Question_filter_ilike_def ilike_def)
  qed
  have sel1: "Question_filter_ilike (''%'' @ ''%'' @ ''%'') sample_store
                = [sample_question 1 ''What Title?'' 1, sample_question 2 ''abc'' 2]"
    using all [of sample_store] by (simp add: sample_store_def)
  have sel2: "Question_filter_ilike (''%'' @ ''%'' @ ''%'') (sample_store\<lparr>like_escape := Some (CHR 0x5C)\<rparr>)
                = [sample_question 1 ''What Title?'' 1, sample_question 2 ''abc'' 2]"
    using all [of "sample_store\<lparr>like_escape := Some (CHR 0x5C)\<rparr>"] by (simp add: sample_store_def)
  let ?b = "\<lparr>b_searchTerm = Some ''%'', b_question = None, b_answer = None,
             b_difficulty = None, b_category = None\<rparr>"
  have t: "b_searchTerm ?b = Some ''%''" "''%'' \<noteq> []" by simp_all
  show "post_question True \<lparr>args_page = None\<rparr> (Some ?b) sample_store
     = (Inr (SearchResponse
               [format (sample_question 1 ''What Title?'' 1), format (sample_question 2 ''abc'' 2)] 2),
        sample_store)"
    unfolding search_result [OF t] sel1
    by (simp add: paginate_default paginate_positive)
  show "post_question True \<lparr>args_page = None\<rparr> (Some ?b) (sample_store\<lparr>like_escape := Some (CHR 0x5C)\<rparr>)
     = (Inr (SearchResponse
               [format (sample_question 1 ''What Title?'' 1), format (sample_question 2 ''abc'' 2)] 2),
        sample_store\<lparr>like_escape := Some (CHR 0x5C)\<rparr>)"
    unfolding search_result [OF t] sel2
    by (simp add: paginate_default paginate_positive)
qed

subsection \<open>Creating a question\<close>

text \<open>
  C6. For every create-mode request (the body has no non-empty searchTerm), the operation
  fails with 422 whenever one of the four fields question, answer, difficulty, category
  is missing or null. On success the response carries the id of the new question, its
  text, the requested page of all questions with the new one among them, and as
  total_questions the full number of questions, the new one counted.
\<close>

theorem create_question_result:
  assumes "b_searchTerm b = None \<or> b_searchTerm b = Some []"
  shows "(b_question b = None \<or> b_answer b = None \<or> b_difficulty b = None \<or> b_category b = None
            \<longrightarrow> post_question storage_ok req (Some b) db = (Inl (Abort 422), db))
       \<and> (\<forall>r db'. post_question storage_ok req (Some b) db = (Inr r, db') \<longrightarrow>
            (\<exists>q. b_question b = Some (question q) \<and> b_answer b = Some (answer q)
               \<and> b_difficulty b = Some (difficulty q) \<and> b_category b = Some (category q)
               \<and> qid q = question_id_seq db
               \<and> question_rows db' = question_rows db @ [q]
               \<and> r = CreatedResponse (qid q) (question q) (paginate req (question_rows db'))
                        (length (question_rows db) + 1)))"
proof (intro conjI impI allI)
  assume "b_question b = None \<or> b_answer b = None \<or> b_difficulty b = None \<or> b_category b = None"
  with assms show "post_question storage_ok req (Some b) db = (Inl (Abort 422), db)"
    by (auto simp: post_question_def split: option.splits list.splits)
next
  fix r db'
  assume ok: "post_question storage_ok req (Some b) db = (Inr r, db')"
  from assms ok obtain nq na nd nc where f: "b_question b = Some nq" "b_answer b = Some na"
      "b_difficulty b = Some nd" "b_category b = Some nc"
    by (auto simp: post_question_def split: option.splits list.splits)
  let ?q = "\<lparr>qid = question_id_seq db, question = nq, answer = na, category = nc, difficulty = nd\<rparr>"
  from assms ok f have "storage_ok"
    by (auto simp: post_question_def Question_insert_def split: option.splits list.splits if_splits)
  with assms ok f have "question_rows db' = question_rows db @ [?q]"
     and "r = CreatedResponse (qid ?q) (question ?q) (paginate req (question_rows db'))
                        (length (question_rows db) + 1)"
    by (auto simp: post_question_def Question_insert_def Question_query_all_def Let_def)
  with f show "\<exists>q. b_question b = Some (question q) \<and> b_answer b = Some (answer q)
               \<and> b_difficulty b = Some (difficulty q) \<and> b_category b = Some (category q)
               \<and> qid q = question_id_seq db
               \<and> question_rows db' = question_rows db @ [q]
               \<and> r = CreatedResponse (qid q) (question q) (paginate req (question_rows db'))
                        (length (question_rows db) + 1)"
    by (intro exI [of _ ?q]) simp
qed

theorem create_question_result_witness:
  "post_question True \<lparr>args_page = None\<rparr>
      (Some \<lparr>b_searchTerm = None, b_question = Some ''Q'', b_answer = Some ''A'',
             b_difficulty = Some 2, b_category = Some 1\<rparr>) sample_store
     = (Inr (CreatedResponse 3 ''Q''
               (map format (question_rows sample_store) @
                 [format \<lparr>qid = 3, question = ''Q'', answer = ''A'', category = 1, difficulty = 2\<rparr>])
               3),
        sample_store\<lparr>question_rows := question_rows sample_store @
                       [\<lparr>qid = 3, question = ''Q'', answer = ''A'', category = 1, difficulty = 2\<rparr>],
                     question_id_seq := 4\<rparr>)
   \<and> post_question True \<lparr>args_page = None\<rparr>
      (Some \<lparr>b_searchTerm = Some [], b_question = Some ''Q'', b_answer = None,
             b_difficulty = Some 2, b_category = Some 1\<rparr>) sample_store
     = (Inl (Abort 422), sample_store)"
proof -
  let ?b = "\<lparr>b_searchTerm = None, b_question = Some ''Q'', b_answer = Some ''A'',
             b_difficulty = Some 2, b_category = Some 1\<rparr>"
  let ?b' = "\<lparr>b_searchTerm = Some [], b_question = Some ''Q'', b_answer = None,
             b_difficulty = Some 2, b_category = Some 1\<rparr>"
  let ?req = "\<lparr>args_page = None\<rparr>"
  have ev: "post_question True ?req (Some ?b) sample_store
     = (Inr (CreatedResponse 3 ''Q''
               (map format (question_rows sample_store) @
                 [format \<lparr>qid = 3, question = ''Q'', answer = ''A'', category = 1, difficulty = 2\<rparr>])
               3),
        sample_store\<lparr>question_rows := question_rows sample_store @
                       [\<lparr>qid = 3, question = ''Q'', answer = ''A'', category = 1, difficulty = 2\<rparr>],
                     question_id_seq := 4\<rparr>)"
    by (simp add: post_question_def Question_insert_def Question_query_all_def Let_def
          paginate_default paginate_positive sample_store_def sample_question_def)
  have "b_searchTerm ?b = None \<or> b_searchTerm ?b = Some []" by simp
  from create_question_result [OF this, of True ?req sample_store, THEN conjunct2, rule_format, OF ev]
  obtain q :: Question where "qid q = question_id_seq sample_store"
    by blast
  then have created: "qid q = 3" by (simp add: sample_store_def)
  have "b_searchTerm ?b' = None \<or> b_searchTerm ?b' = Some []" by simp
  from create_question_result [OF this, of True ?req sample_store]
  have "post_question True ?req (Some ?b') sample_store = (Inl (Abort 422), sample_store)"
    by simp
  with ev created show ?thesis by simp
qed

text \<open>
  With the four fields present the creation succeeds where the storage carries the
  insertion out, and answers 422 where the storage raises.
\<close>

lemma create_question_succeeds:
  assumes "b_searchTerm b = None \<or> b_searchTerm b = Some []"
      and "b_question b = Some nq" "b_answer b = Some na" "b_difficulty b = Some nd" "b_category b = Some nc"
  shows "\<exists>r db'. post_question True req (Some b) db = (Inr r, db')"
  using assms by (auto simp: post_question_def Question_insert_def Let_def)

lemma create_question_storage_failure:
  assumes "b_searchTerm b = None \<or> b_searchTerm b = Some []"
  shows "post_question False req (Some b) db = (Inl (Abort 422), db)"
  using assms by (auto simp: post_question_def Question_insert_def split: option.splits list.splits)

subsection \<open>The questions of a category\<close>

text \<open>
  C7. For every category id, the list-questions-by-category operation aborts with status
  400 (not 404) when no category has that id. When a category has it, the operation
  succeeds with the requested page of the questions whose category is that id, as
  total_questions the number of those questions before pagination, and as
  current_category the type of the category.
\<close>

theorem questions_by_category_result:
  "((\<forall>c \<in> set (category_rows db). cid c \<noteq> ident) \<longrightarrow>
      get_questions_by_category ident req db = Inl (Abort 400)
      \<and> map_option snd (errorhandler (Abort 400)) = Some 400)
 \<and> ((\<exists>c \<in> set (category_rows db). cid c = ident) \<longrightarrow>
      (\<exists>c \<in> set (category_rows db). cid c = ident
        \<and> get_questions_by_category ident req db
            = Inr (ByCategoryResponse
                     (paginate req (filter (\<lambda>q. category q = ident) (question_rows db)))
                     (length (filter (\<lambda>q. category q = ident) (question_rows db)))
                     (ctype c))))"
proof (intro conjI impI)
  assume "\<forall>c \<in> set (category_rows db). cid c \<noteq> ident"
  then have "Category_query_get ident db = None"
    by (simp add: Category_query_get_def find_None_iff)
  then show "get_questions_by_category ident req db = Inl (Abort 400)"
    by (simp add: get_questions_by_category_def)
  show "map_option snd (errorhandler (Abort 400)) = Some 400"
    by (simp add: errorhandler_def)
next
  assume "\<exists>c \<in> set (category_rows db). cid c = ident"
  then obtain c where c: "Category_query_get ident db = Some c"
    by (cases "Category_query_get ident db") (auto simp: Category_query_get_def find_None_iff)
  then have "cid c = ident" and "c \<in> set (category_rows db)"
    by (auto simp: Category_query_get_def find_Some_iff)
  with c show "\<exists>c \<in> set (category_rows db). cid c = ident
        \<and> get_questions_by_category ident req db
            = Inr (ByCategoryResponse
                     (paginate req (filter (\<lambda>q. category q = ident) (question_rows db)))
                     (length (filter (\<lambda>q. category q = ident) (question_rows db)))
                     (ctype c))"
    by (intro bexI [of _ c])
       (simp_all add: get_questions_by_category_def Question_filter_by_category_def Let_def)
qed

theorem questions_by_category_result_witness:
  "get_questions_by_category 7 \<lparr>args_page = None\<rparr> sample_store = Inl (Abort 400)
   \<and> get_questions_by_category 2 \<lparr>args_page = None\<rparr> sample_store
       = Inr (ByCategoryResponse [format (sample_question 2 ''abc'' 2)] 1 ''Art'')"
proof -
  have absent: "\<forall>c \<in> set (category_rows sample_store). cid c \<noteq> 7"
    by (simp add: sample_store_def)
  have present: "\<exists>c \<in> set (category_rows sample_store). cid c = 2"
    by (simp add: sample_store_def)
  from questions_by_category_result [of sample_store 7 "\<lparr>args_page = None\<rparr>"] absent
  have 1: "get_questions_by_category 7 \<lparr>args_page = None\<rparr> sample_store = Inl (Abort 400)"
    by blast
  from questions_by_category_result [of sample_store 2 "\<lparr>args_page = None\<rparr>"] present
  obtain c where "c \<in> set (category_rows sample_store)" "cid c = 2"
    and r: "get_questions_by_category 2 \<lparr>args_page = None\<rparr> sample_store
            = Inr (ByCategoryResponse
                     (paginate \<lparr>args_page = None\<rparr> (filter (\<lambda>q. category q = 2) (question_rows sample_store)))
                     (length (filter (\<lambda>q. category q = 2) (question_rows sample_store)))
                     (ctype c))"
    by blast
  then have "ctype c = ''Art''"
    by (auto simp: sample_store_def)
  with r 1 show ?thesis
    by (simp add: sample_store_def sample_question_def paginate_default paginate_positive)
qed

subsection \<open>The next question of a quiz\<close>

lemma random_choice_mem: "random_choice rnd xs = Inr x \<Longrightarrow> x \<in> set xs"
  by (auto simp: random_choice_def split: if_splits)

lemma map_of_format_id: "map_of (format q) ''id'' = Some (JInt (qid q))"
  by (simp add: format_def)

text \<open>
  C2. For every quiz request, whatever the list of previous questions and the category
  id (0, all categories, included): whenever the quiz operation returns a response with
  a question, the id of that question is not in the submitted previous_questions list.
\<close>

theorem quiz_question_not_previous:
  assumes "post_random_quiz_question rnd body db = Inr (QuizResponse (Some item))"
  shows "\<exists>b previous_questions i.
           body = Some b \<and> b_previous_questions b = Some previous_questions
         \<and> map_of item ''id'' = Some (JInt i) \<and> i \<notin> set previous_questions"
proof -
  from assms obtain b prev c where b: "body = Some b"
    and prev: "b_previous_questions b = Some prev" and c: "b_quiz_category_id b = Some c"
    by (auto simp: post_random_quiz_question_def split: option.splits)
  let ?questions = "if c = 0 then Question_query_all db else Question_filter_by_category c db"
  let ?new_list = "filter (\<lambda>q. qid q \<notin> set prev) ?questions"
  from assms b prev c obtain chosen where ch: "random_choice rnd ?new_list = Inr chosen"
    and item: "item = format chosen"
    by (auto simp: post_random_quiz_question_def Let_def split: if_splits sum.splits)
  from random_choice_mem [OF ch] have "qid chosen \<notin> set prev" by simp
  with b prev item show ?thesis by (simp add: map_of_format_id)
qed

theorem quiz_question_not_previous_witness:
  "post_random_quiz_question 5
      (Some \<lparr>b_previous_questions = Some [1], b_quiz_category_id = Some 0\<rparr>) sample_store
     = Inr (QuizResponse (Some (format (sample_question 2 ''abc'' 2))))
   \<and> map_of (format (sample_question 2 ''abc'' 2)) ''id'' = Some (JInt 2)
   \<and> 2 \<notin> set [1 :: int]"
proof -
  have ev: "post_random_quiz_question 5
      (Some \<lparr>b_previous_questions = Some [1], b_quiz_category_id = Some 0\<rparr>) sample_store
     = Inr (QuizResponse (Some (format (sample_question 2 ''abc'' 2))))"
    by (simp add: post_random_quiz_question_def Question_query_all_def random_choice_def
          sample_store_def sample_question_def)
  from quiz_question_not_previous [OF ev]
  obtain i where "map_of (format (sample_question 2 ''abc'' 2)) ''id'' = Some (JInt i)"
    and "i \<notin> set [1 :: int]"
    by auto
  moreover have "map_of (format (sample_question 2 ''abc'' 2)) ''id'' = Some (JInt 2)"
    by (simp add: format_def sample_question_def)
  ultimately show ?thesis using ev by simp
qed

text \<open>
  C3. For every quiz request, if the number of candidate questions of the selected
  category (all questions for id 0) equals the number of entries of previous_questions,
  the quiz operation returns \<open>{success: true}\<close> without a question.
\<close>

theorem quiz_exhausted:
  assumes "b_previous_questions b = Some previous_questions"
      and "b_quiz_category_id b = Some c"
      and "length (if c = 0 then Question_query_all db else Question_filter_by_category c db)
             = length previous_questions"
  shows "post_random_quiz_question rnd (Some b) db = Inr (QuizResponse None)"
  using assms by (simp add: post_random_quiz_question_def Let_def)

theorem quiz_exhausted_witness:
  "post_random_quiz_question 5
      (Some \<lparr>b_previous_questions = Some [1], b_quiz_category_id = Some 2\<rparr>) sample_store
     = Inr (QuizResponse None)"
proof -
  let ?b = "\<lparr>b_previous_questions = Some [1], b_quiz_category_id = Some 2\<rparr>"
  have 1: "b_previous_questions ?b = Some [1]" and 2: "b_quiz_category_id ?b = Some 2"
    by simp_all
  have 3: "length (if (2 :: int) = 0 then Question_query_all sample_store
                   else Question_filter_by_category 2 sample_store) = length [1 :: int]"
    by (simp add: Question_filter_by_category_def sample_store_def sample_question_def)
  show ?thesis by (rule quiz_exhausted [OF 1 2 3])
qed

text \<open>
  C10. A quiz request in which the id of every candidate question is in
  previous_questions while the number of candidates differs from the number of entries
  of previous_questions makes the quiz operation choose from the empty list: it ends in
  an \<open>IndexError\<close> that nothing catches and that none of the handlers for 400, 404 and
  422 answers. Such requests exist, for one a list of previous questions longer than the
  list of candidates.
\<close>

theorem quiz_choice_from_empty:
  assumes "b_previous_questions b = Some previous_questions"
      and "b_quiz_category_id b = Some c"
      and "\<forall>q \<in> set (if c = 0 then Question_query_all db else Question_filter_by_category c db).
             qid q \<in> set previous_questions"
      and "length (if c = 0 then Question_query_all db else Question_filter_by_category c db)
             \<noteq> length previous_questions"
  shows "post_random_quiz_question rnd (Some b) db = Inl (Raised IndexError)
       \<and> errorhandler (Raised IndexError) = None"
proof -
  let ?questions = "if c = 0 then Question_query_all db else Question_filter_by_category c db"
  have "filter (\<lambda>q. qid q \<notin> set previous_questions) ?questions = []"
    using assms(3) by (simp add: filter_empty_conv)
  then have "random_choice rnd (filter (\<lambda>q. qid q \<notin> set previous_questions) ?questions)
               = Inl IndexError"
    by (simp add: random_choice_def)
  with assms(1,2,4) show ?thesis
    by (simp add: post_random_quiz_question_def Let_def errorhandler_def)
qed

theorem quiz_choice_from_empty_witness:
  "post_random_quiz_question 5
      (Some \<lparr>b_previous_questions = Some [1, 2, 3], b_quiz_category_id = Some 0\<rparr>) sample_store
     = Inl (Raised IndexError)
   \<and> errorhandler (Raised IndexError) = None"
proof -
  let ?b = "\<lparr>b_previous_questions = Some [1, 2, 3], b_quiz_category_id = Some 0\<rparr>"
  have 1: "b_previous_questions ?b = Some [1, 2, 3]" and 2: "b_quiz_category_id ?b = Some 0"
    by simp_all
  have 3: "\<forall>q \<in> set (if (0 :: int) = 0 then Question_query_all sample_store
                       else Question_filter_by_category 0 sample_store).
             qid q \<in> set [1, 2, 3]"
    by (simp add: Question_query_all_def sample_store_def sample_question_def)
  have 4: "length (if (0 :: int) = 0 then Question_query_all sample_store
                   else Question_filter_by_category 0 sample_store) \<noteq> length [1, 2, 3 :: int]"
    by (simp add: Question_query_all_def sample_store_def)
  show ?thesis by (rule quiz_choice_from_empty [OF 1 2 3 4])
qed

end
